theory Spec2Isabelle
  imports Complex_Main "HOL-Library.Char_ord" "HOL-Library.List_Lexorder"
begin

section \<open>Python strings\<close>

text \<open>
  A Python \<open>str\<close> is modelled as a \<open>string\<close> whose characters are the code points
  0..255. The functions below are the standard string methods the program calls,
  restricted to that range: \<open>str.lower\<close>, \<open>str.lstrip\<close>, \<open>str.rstrip\<close>,
  \<open>str.strip(chars)\<close>, \<open>repr\<close> of a string and \<open>str\<close> of a list of strings.
\<close>

definition code_point :: "char \<Rightarrow> nat" where
  "code_point c = of_char c"

definition is_space :: "char \<Rightarrow> bool" where
  \<comment> \<open>the characters \<open>str.strip()\<close> removes: tab, newline, VT, FF, CR, FS, GS, RS, US, space, NEL, NBSP\<close>
  "is_space c = (code_point c \<in> set [9, 10, 11, 12, 13, 28, 29, 30, 31, 32, 133, 160])"

definition lstrip :: "string \<Rightarrow> string" where
  "lstrip s = dropWhile is_space s"

definition rstrip :: "string \<Rightarrow> string" where
  "rstrip s = rev (dropWhile is_space (rev s))"

definition lower_char :: "char \<Rightarrow> char" where
  \<comment> \<open>A..Z and the Latin-1 capitals (0xC0..0xDE without the multiplication sign 0xD7)\<close>
  "lower_char c =
     (let n = code_point c
      in if (65 \<le> n \<and> n \<le> 90) \<or> (192 \<le> n \<and> n \<le> 222 \<and> n \<noteq> 215)
         then char_of (n + 32) else c)"

definition lower :: "string \<Rightarrow> string" where
  "lower s = map lower_char s"

definition strip_chars :: "string \<Rightarrow> string \<Rightarrow> string" where
  \<comment> \<open>\<open>s.strip(chars)\<close>: leading and trailing characters that occur in \<open>chars\<close> are removed\<close>
  "strip_chars chars s =
     rev (dropWhile (\<lambda>c. c \<in> set chars) (rev (dropWhile (\<lambda>c. c \<in> set chars) s)))"

definition apostrophe :: char where
  "apostrophe = CHR 0x27"

definition double_quote :: char where
  "double_quote = CHR 0x22"

definition backslash :: char where
  "backslash = CHR 0x5C"

definition printable :: "char \<Rightarrow> bool" where
  \<comment> \<open>\<open>str.isprintable\<close> on the code points 0..255\<close>
  "printable c =
     (let n = code_point c
      in (32 \<le> n \<and> n < 127) \<or> (161 \<le> n \<and> n \<noteq> 173))"

definition hex_digit :: "nat \<Rightarrow> char" where
  "hex_digit n = ''0123456789abcdef'' ! (n mod 16)"

definition repr_char :: "char \<Rightarrow> char \<Rightarrow> string" where
  \<comment> \<open>one character of \<open>repr(s)\<close>, inside the quote character \<open>q\<close>\<close>
  "repr_char q c =
     (if c = q \<or> c = backslash then [backslash, c]
      else if c = CHR 0x09 then [backslash, CHR ''t'']
      else if c = CHR 0x0A then [backslash, CHR ''n'']
      else if c = CHR 0x0D then [backslash, CHR ''r'']
      else if printable c then [c]
      else [backslash, CHR ''x'', hex_digit (code_point c div 16), hex_digit (code_point c)])"

definition repr :: "string \<Rightarrow> string" where
  \<comment> \<open>\<open>repr\<close> of a \<open>str\<close>: double quotes when the string has an apostrophe and no double quote\<close>
  "repr s =
     (let q = (if apostrophe \<in> set s \<and> double_quote \<notin> set s then double_quote else apostrophe)
      in [q] @ concat (map (repr_char q) s) @ [q])"

fun join :: "string \<Rightarrow> string list \<Rightarrow> string" where
  "join sep [] = []"
| "join sep [x] = x"
| "join sep (x # y # ys) = x @ sep @ join sep (y # ys)"

definition str_list :: "string list \<Rightarrow> string" where
  \<comment> \<open>\<open>str\<close> of a list of strings\<close>
  "str_list xs = ''['' @ join '', '' (map repr xs) @ '']''"

section \<open>Constants and the data model\<close>

datatype error = IndexError | KeyError | Other_error

definition CITY_DATA :: "(string \<times> string) list" where
  \<comment> \<open>a dict, in insertion order\<close>
  "CITY_DATA =
     [(''Chicago'', ''chicago.csv''),
      (''New York City'', ''new_york_city.csv''),
      (''Washington'', ''washington.csv''),
      (''Add new city files here!'', ''newcityfile.csv''),
      (''Test Data'', ''testdata.csv'')]"

definition MONTHS :: "string list" where
  \<comment> \<open>July to December are commented out in the source\<close>
  "MONTHS = [''Dummy'', ''January'', ''February'', ''March'', ''April'', ''May'', ''June'']"

definition WEEKDAYS :: "string list" where
  "WEEKDAYS = [''Sunday'', ''Monday'', ''Tuesday'', ''Wednesday'',
               ''Thursday'', ''Friday'', ''Saturday'']"

definition index :: "'a list \<Rightarrow> int \<Rightarrow> error + 'a" where
  \<comment> \<open>\<open>xs[i]\<close>: a negative index counts from the end, an index out of range raises\<close>
  "index xs i =
     (if 0 \<le> i \<and> i < int (length xs) then Inr (xs ! nat i)
      else if i < 0 \<and> - int (length xs) \<le> i then Inr (xs ! nat (int (length xs) + i))
      else Inl IndexError)"

definition slice :: "'a list \<Rightarrow> nat \<Rightarrow> nat \<Rightarrow> 'a list" where
  \<comment> \<open>\<open>xs[i:j]\<close> for \<open>0 \<le> i\<close> and \<open>0 \<le> j\<close>: bounds beyond the end are clipped\<close>
  "slice xs i j = drop i (take j xs)"

text \<open>
  A row of a csv file, as far as the modelled functions read it. The parsed
  \<open>Start Time\<close> is represented by the three values the program takes from it
  (\<open>.dt.month\<close>, \<open>.dt.weekday_name\<close>, \<open>.dt.hour\<close>); a missing \<open>Birth Year\<close> (NaN)
  is \<open>None\<close>. \<open>load_data\<close> adds the derived columns.
\<close>

record trip =
  start_month :: int
  start_weekday_name :: string
  start_hour :: int
  Start_Station :: string
  End_Station :: string
  Birth_Year :: "rat option"

record row = trip +
  Month :: string
  Day_of_Week :: string
  Hour :: int
  Path :: string

section \<open>Input, prefix matching and unique selection\<close>

text \<open>
  The user's side of a session is a script of answers: each prompt consumes the next
  entry. \<open>Interrupt\<close> is a KeyboardInterrupt raised while \<open>input\<close> is waiting. A prompt
  that finds the script empty is still waiting for its answer: that run has no result.
\<close>

datatype user_input = Answered string | Interrupt

fun clean_input :: "user_input \<Rightarrow> string" where
  "clean_input (Answered s) = s"
| "clean_input Interrupt = ''Quit''"

definition match_start_string :: "string list \<Rightarrow> string \<Rightarrow> string list" where
  "match_start_string list_to_search substring =
     (let clean_substring = lower (rstrip (lstrip substring))
      in filter (\<lambda>item. clean_substring = lower (take (length clean_substring) item))
           list_to_search)"

text \<open>
  What the program prints is recorded as a list of events, one per message; the text of
  a message is not modelled, its arguments are.
\<close>

datatype event =
    No_match string "string list"
  | More_than_one string "string list"
  | You_selected string
  | Filters string string string
  | Load_data string string string
  | Page nat "row list"
  | Statistics
  | Quit_recognized
  | No_data
  | No_data_files
  | Signoff

type_synonym 'a prompted = "event list \<times> ('a \<times> user_input list) option"

definition emit :: "event list \<Rightarrow> 'a prompted \<Rightarrow> 'a prompted" where
  "emit out r = (out @ fst r, snd r)"

fun unique_selection :: "string list \<Rightarrow> user_input list \<Rightarrow> string prompted" where
  "unique_selection option_list [] = ([], None)"
| "unique_selection option_list (x # rest) =
     (let selection = clean_input x;
          matched = match_start_string option_list selection
      in if length matched = 0
         then emit [No_match selection option_list] (unique_selection option_list rest)
         else if length matched > 1
         then emit [More_than_one selection matched] (unique_selection option_list rest)
         else ([], Some (strip_chars (apostrophe # ''[]'') (str_list matched), rest)))"

definition get_filters ::
  "string list \<Rightarrow> bool \<Rightarrow> user_input list \<Rightarrow> (string \<times> string \<times> string) prompted" where
  "get_filters available_cities all_flag ins =
     (case unique_selection (available_cities @ [''Quit'']) ins of
        (out1, None) \<Rightarrow> (out1, None)
      | (out1, Some (city, ins1)) \<Rightarrow>
          emit (out1 @ [You_selected city])
            (if city = ''Quit'' then ([], Some ((city, ''Quit'', ''Quit''), ins1))
             else if all_flag then ([], Some ((city, ''All'', ''All''), ins1))
             else
               (case unique_selection (slice MONTHS 1 13 @ [''All'', ''Quit'']) ins1 of
                  (out2, None) \<Rightarrow> (out2, None)
                | (out2, Some (month, ins2)) \<Rightarrow>
                    emit (out2 @ [You_selected month])
                      (if month = ''Quit'' then ([], Some ((city, month, ''Quit''), ins2))
                       else
                         (case unique_selection (WEEKDAYS @ [''All'', ''Quit'']) ins2 of
                            (out3, None) \<Rightarrow> (out3, None)
                          | (out3, Some (day, ins3)) \<Rightarrow>
                              (out3 @ [You_selected day], Some ((city, month, day), ins3)))))))"

section \<open>Loading and filtering\<close>

fun derive_rows :: "trip list \<Rightarrow> error + row list" where
  "derive_rows [] = Inr []"
| "derive_rows (t # ts) =
     (case index MONTHS (start_month t) of
        Inl e \<Rightarrow> Inl e
      | Inr name \<Rightarrow>
          (case derive_rows ts of
             Inl e \<Rightarrow> Inl e
           | Inr rs \<Rightarrow>
               Inr (trip.extend t
                      (row.fields name (start_weekday_name t) (start_hour t)
                         (Start_Station t @ '' => '' @ End_Station t)) # rs)))"

definition load_data ::
  "(string \<Rightarrow> trip list) \<Rightarrow> string \<Rightarrow> string \<Rightarrow> string \<Rightarrow> error + row list" where
  \<comment> \<open>\<open>csv\<close> gives the rows \<open>pd.read_csv\<close> reads from a file name\<close>
  "load_data csv city month day =
     (case map_of CITY_DATA city of
        None \<Rightarrow> Inl KeyError
      | Some file \<Rightarrow>
          (case derive_rows (csv file) of
             Inl e \<Rightarrow> Inl e
           | Inr df \<Rightarrow>
               (let df1 = (if month \<noteq> ''All'' then filter (\<lambda>r. Month r = month) df else df);
                    df2 = (if day \<noteq> ''All'' then filter (\<lambda>r. Day_of_Week r = day) df1 else df1)
                in Inr df2)))"

section \<open>Statistics\<close>

text \<open>
  \<open>display_most_common\<close> calls \<open>Series.mode()\<close> of the pandas library. \<open>mode\<close> is that
  method as pandas documents it: the missing values are dropped, every value that
  occurs most often is kept, once, and the result is sorted in ascending order.
\<close>

definition dropna :: "'a option list \<Rightarrow> 'a list" where
  "dropna column = List.map_filter id column"

definition mode :: "('a::linorder) option list \<Rightarrow> 'a list" where
  "mode column =
     (let values = dropna column;
          top = foldr max (map (count_list values) values) 0
      in sort (remdups (filter (\<lambda>v. count_list values v = top) values)))"

fun digits :: "nat \<Rightarrow> string" where
  "digits n = (if n < 10 then [char_of (48 + n)] else digits (n div 10) @ [char_of (48 + n mod 10)])"

declare digits.simps [simp del]

definition str_int :: "int \<Rightarrow> string" where
  \<comment> \<open>\<open>str\<close> of an int\<close>
  "str_int i = (if i < 0 then CHR ''-'' # digits (nat (- i)) else digits (nat i))"

definition display_most_common ::
  "string \<Rightarrow> ('a::linorder) option list \<Rightarrow> ('a \<Rightarrow> string) \<Rightarrow> bool \<Rightarrow> string list" where
  \<comment> \<open>the column \<open>df[column_name]\<close> and the \<open>str\<close> of its values are arguments;
      the result is the text of each \<open>print\<close> call\<close>
  "display_most_common description column str show_in_rows =
     (let most_common = mode column
      in if show_in_rows
         then [description,
               [CHR 0x09] @ join [CHR 0x0A, CHR 0x09] (map str most_common),
               [CHR 0x0A]]
         else [description @ join '', '' (map str most_common)])"

definition time_stats :: "row list \<Rightarrow> string \<Rightarrow> string \<Rightarrow> string list" where
  \<comment> \<open>the headings and the timing are left out\<close>
  "time_stats df month day =
     (if month = ''All''
      then display_most_common ''The most common month(s):'' (map (Some \<circ> Month) df) id False
      else []) @
     (if day = ''All''
      then display_most_common ''The most common day(s):  '' (map (Some \<circ> Day_of_Week) df) id False
      else []) @
     display_most_common ''The most common hour(s): '' (map (Some \<circ> Hour) df) str_int False"

definition station_stats :: "row list \<Rightarrow> string list" where
  "station_stats df =
     (let show_in_rows = True
      in display_most_common ''The most common start stations(s):''
           (map (Some \<circ> Start_Station) df) id show_in_rows @
         display_most_common ''The most common end stations(s):''
           (map (Some \<circ> End_Station) df) id show_in_rows @
         display_most_common ''The most common start => end combination(s):''
           (map (Some \<circ> Path) df) id show_in_rows)"

definition py_int :: "rat \<Rightarrow> int" where
  \<comment> \<open>\<open>int(x)\<close> truncates towards zero\<close>
  "py_int x = (if 0 \<le> x then \<lfloor>x\<rfloor> else \<lceil>x\<rceil>)"

definition bydf :: "row list \<Rightarrow> int list" where
  \<comment> \<open>the birth years that are not NaN, converted to int\<close>
  "bydf df = map py_int (dropna (map Birth_Year df))"

definition user_stats_birth_year :: "bool \<Rightarrow> row list \<Rightarrow> error + string list" where
  \<comment> \<open>the birth-year block of \<open>user_stats\<close>; \<open>has_column\<close> is \<open>'Birth Year' in df.columns\<close>.
      When every birth year is missing, \<open>bydf\<close> has no column 0 and \<open>bydf[0]\<close> raises.\<close>
  "user_stats_birth_year has_column df =
     (if has_column
      then (let years = bydf df
            in if years = [] then Inl KeyError
               else Inr ([''Earliest year of birth:  '' @ str_int (Min (set years)),
                          ''Latest year of birth:    '' @ str_int (Max (set years))] @
                         display_most_common ''The most common year(s): ''
                           (map Some years) str_int False))
      else Inr [''No data about birth year for this city.''])"

subsection \<open>Durations\<close>

text \<open>
  \<open>total_seconds\<close> is a finite number, a rational here (\<open>round\<close> raises on an infinity
  or a NaN, before anything is computed). \<open>round\<close> rounds a half to the even neighbour.
  The floating-point division and the \<open>.2f\<close> formatting of \<open>top_calc\<close> are not modelled:
  \<open>top_calc\<close> is the exact quotient, and the printed line is
  \<open>line_start\<close>, \<open>top_calc\<close> with two decimals, a space, \<open>top_name\<close> and \<open>)\<close>.
\<close>

definition py_round :: "rat \<Rightarrow> int" where
  "py_round x =
     (let f = \<lfloor>x\<rfloor>; d = x - of_int f
      in if d < 1 / 2 then f else if 1 / 2 < d then f + 1 else if even f then f else f + 1)"

record duration =
  days :: int
  hours :: int
  minutes :: int
  seconds :: int
  units :: string
  line_start :: string
  top_calc :: rat
  top_name :: string

definition display_duration :: "string \<Rightarrow> rat \<Rightarrow> duration" where
  "display_duration description total_seconds =
     (let duration_args = ['' days, '', '' hours, '', '' minutes, '', '' seconds ''];
          duration_names = [''days'', ''hours'', ''minutes'', ''seconds''];
          duration_unit_in_seconds = [24 * 60 * 60, 60 * 60, 60, 1 :: int];
          n = py_round total_seconds;
          minutes0 = n div 60; seconds = n mod 60;
          hours0 = minutes0 div 60; minutes = minutes0 mod 60;
          days = hours0 div 24; hours = hours0 mod 24;
          duration_list = [days, hours, minutes, seconds];
          top_unit_index =
            min_list (map (\<lambda>(index, value). if value > 0 then index else 3)
                        (enumerate 0 duration_list));
          top_calc = total_seconds / of_int (duration_unit_in_seconds ! top_unit_index);
          top_name = duration_names ! top_unit_index;
          print_string =
            concat (map (\<lambda>(index, value).
                           if value > 0 then str_int value @ duration_args ! index else [])
                      (enumerate 0 duration_list))
      in \<lparr>days = days, hours = hours, minutes = minutes, seconds = seconds,
          units = print_string,
          line_start = description @ '' '' @ print_string @ ''(= '',
          top_calc = top_calc, top_name = top_name\<rparr>)"

section \<open>The session\<close>

record args =
  timeoff :: bool
  all :: bool
  debug :: bool
  pagesize :: int

fun raw_data :: "int \<Rightarrow> row list \<Rightarrow> nat \<Rightarrow> user_input list \<Rightarrow> event list \<times> user_input list option" where
  \<comment> \<open>the paging loop of \<open>main_loop\<close>, from row \<open>i\<close> on; \<open>page\<close> is \<open>args.pagesize\<close>\<close>
  "raw_data page df i [] =
     (if i < length df then ([Page i (slice df i (i + nat \<bar>page\<bar>))], None)
      else ([], Some []))"
| "raw_data page df i (x # rest) =
     (if i < length df
      then if lower (clean_input x) = ''q''
           then ([Page i (slice df i (i + nat \<bar>page\<bar>))], Some rest)
           else (case raw_data page df (i + nat \<bar>page\<bar>) rest of
                   (pages, r) \<Rightarrow> (Page i (slice df i (i + nat \<bar>page\<bar>)) # pages, r))
      else ([], Some (x # rest)))"

datatype flow = Continue "user_input list" | Break | Raise error | Blocked

definition display_data ::
  "(row list \<Rightarrow> error option) \<Rightarrow> args \<Rightarrow> row list \<Rightarrow> user_input list \<Rightarrow> event list \<times> flow" where
  "display_data stats_error args df ins =
     (let df_row_count = length df
      in if df_row_count \<noteq> 0
         then
           (case unique_selection [''Raw Data'', ''Statistics'', ''Quit''] ins of
              (out, None) \<Rightarrow> (out, Blocked)
            | (out, Some (what_to_display, ins1)) \<Rightarrow>
                if what_to_display = ''Quit''
                then (out @ [You_selected what_to_display, Quit_recognized], Break)
                else if what_to_display = ''Statistics''
                then (case stats_error df of
                        Some e \<Rightarrow> (out @ [You_selected what_to_display, Statistics], Raise e)
                      | None \<Rightarrow> (out @ [You_selected what_to_display, Statistics], Continue ins1))
                else (case raw_data (pagesize args) df 0 ins1 of
                        (pages, None) \<Rightarrow> (out @ [You_selected what_to_display] @ pages, Blocked)
                      | (pages, Some ins2) \<Rightarrow>
                          (out @ [You_selected what_to_display] @ pages, Continue ins2)))
         else ([No_data], Continue ins))"

datatype outcome = Finished | Raised error | Waiting

text \<open>
  The loop of \<open>main_loop\<close>. \<open>previous_city\<close> starts as a one-element tuple, which is
  equal to no string: that is \<open>None\<close>. \<open>df\<close> is the dataset loaded last. \<open>csv\<close> gives the
  rows of a file, \<open>stats_error\<close> the exception the four statistics functions raise on
  a dataset, if any. \<open>Filters\<close> records the values \<open>get_filters\<close> returned.
\<close>

lemma emit_Some: "emit out r = (out', Some v) \<longleftrightarrow> (\<exists>o2. r = (o2, Some v) \<and> out' = out @ o2)"
  by (cases r) (auto simp: emit_def)

lemma unique_selection_shorter:
  "unique_selection option_list ins = (out, Some (s, r)) \<Longrightarrow> length r < length ins"
proof (induction ins arbitrary: out)
  case Nil
  then show ?case by simp
next
  case (Cons x rest)
  then show ?case
    by (auto simp: Let_def emit_Some split: if_splits)
qed

lemma get_filters_shorter:
  "get_filters cities a ins = (out, Some (f, r)) \<Longrightarrow> length r < length ins"
  unfolding get_filters_def
  by (auto simp: emit_Some split: prod.splits option.splits if_splits
        dest!: unique_selection_shorter)

lemma raw_data_shorter:
  "raw_data page df i ins = (out, Some r) \<Longrightarrow> length r \<le> length ins"
proof (induction ins arbitrary: i out)
  case Nil
  then show ?case by (simp split: if_splits)
next
  case (Cons x rest)
  then show ?case
    by (fastforce split: if_splits prod.splits)
qed

lemma display_data_shorter:
  "display_data stats_error args df ins = (out, Continue r) \<Longrightarrow> length r \<le> length ins"
  unfolding display_data_def
  by (auto simp: Let_def split: prod.splits option.splits if_splits
        dest!: unique_selection_shorter raw_data_shorter)

function session_loop ::
  "(string \<Rightarrow> trip list) \<Rightarrow> (row list \<Rightarrow> error option) \<Rightarrow> args \<Rightarrow> string list \<Rightarrow>
   string option \<Rightarrow> row list \<Rightarrow> user_input list \<Rightarrow> event list \<times> outcome" where
  "session_loop csv stats_error args cities previous_city df ins =
     (case get_filters cities (all args) ins of
        (out, None) \<Rightarrow> (out, Waiting)
      | (out, Some ((city, month, day), ins1)) \<Rightarrow>
          if ''Quit'' \<in> set [city, month, day]
          then (out @ [Filters city month day, Quit_recognized], Finished)
          else
            (case (if \<not> (previous_city = Some city \<and> all args)
                   then ([Load_data city month day], load_data csv city month day)
                   else ([], Inr df)) of
               (out1, Inl e) \<Rightarrow> (out @ [Filters city month day] @ out1, Raised e)
             | (out1, Inr df1) \<Rightarrow>
                 (case display_data stats_error args df1 ins1 of
                    (out2, Blocked) \<Rightarrow> (out @ [Filters city month day] @ out1 @ out2, Waiting)
                  | (out2, Break) \<Rightarrow> (out @ [Filters city month day] @ out1 @ out2, Finished)
                  | (out2, Raise e) \<Rightarrow> (out @ [Filters city month day] @ out1 @ out2, Raised e)
                  | (out2, Continue []) \<Rightarrow>
                      (out @ [Filters city month day] @ out1 @ out2, Waiting)
                  | (out2, Continue (restart # ins2)) \<Rightarrow>
                      if lower (clean_input restart) \<noteq> ''y''
                      then (out @ [Filters city month day] @ out1 @ out2, Finished)
                      else
                        (case session_loop csv stats_error args cities (Some city) df1 ins2 of
                           (out3, r) \<Rightarrow>
                             (out @ [Filters city month day] @ out1 @ out2 @ out3, r)))))"
  by pat_completeness auto
termination
  apply (relation "measure (\<lambda>(csv, stats_error, args, cities, previous_city, df, ins). length ins)")
   apply simp
  apply (auto dest!: get_filters_shorter [OF sym] display_data_shorter [OF sym])
  done

declare session_loop.simps [simp del]

definition main_loop ::
  "(string \<Rightarrow> trip list) \<Rightarrow> (row list \<Rightarrow> error option) \<Rightarrow> string list \<Rightarrow> args \<Rightarrow>
   user_input list \<Rightarrow> event list \<times> outcome" where
  \<comment> \<open>\<open>file_list\<close> is the result of \<open>list_csv_files()\<close>; the welcome text is left out\<close>
  "main_loop csv stats_error file_list args ins =
     (let file_dict = filter (\<lambda>(city_name, city_file). city_file \<in> set file_list) CITY_DATA
      in if length file_dict \<noteq> 0
         then (case session_loop csv stats_error args (map fst file_dict) None [] ins of
                 (out, Finished) \<Rightarrow> (out @ [Signoff], Finished)
               | (out, r) \<Rightarrow> (out, r))
         else ([No_data_files, Signoff], Finished))"

section \<open>Month names\<close>

definition july_trip :: trip where
  "july_trip = \<lparr>start_month = 7, start_weekday_name = ''Saturday'', start_hour = 9,
     Start_Station = ''A'', End_Station = ''B'', Birth_Year = None\<rparr>"

lemma index_MONTHS_in:
  "1 \<le> m \<Longrightarrow> m \<le> 6 \<Longrightarrow> index MONTHS m = Inr (MONTHS ! nat m)"
  by (simp add: index_def MONTHS_def)

lemma index_MONTHS_out:
  "7 \<le> m \<Longrightarrow> index MONTHS m = Inl IndexError"
  by (simp add: index_def MONTHS_def)

lemma derive_rows_in:
  "list_all (\<lambda>t. 1 \<le> start_month t \<and> start_month t \<le> 6) ts \<Longrightarrow>
   \<exists>rs. derive_rows ts = Inr rs \<and> map Month rs = map (\<lambda>t. MONTHS ! nat (start_month t)) ts"
proof (induction ts)
  case Nil
  then show ?case by simp
next
  case (Cons t ts)
  then obtain rs where rs: "derive_rows ts = Inr rs"
    "map Month rs = map (\<lambda>t. MONTHS ! nat (start_month t)) ts" by auto
  from Cons.prems have "index MONTHS (start_month t) = Inr (MONTHS ! nat (start_month t))"
    by (simp add: index_MONTHS_in)
  with rs show ?case by (simp add: trip.defs row.defs)
qed

lemma derive_rows_out:
  "t \<in> set ts \<Longrightarrow> 7 \<le> start_month t \<Longrightarrow> derive_rows ts = Inl IndexError"
proof (induction ts)
  case Nil
  then show ?case by simp
next
  case (Cons u us)
  show ?case
  proof (cases "index MONTHS (start_month u)")
    case (Inl e)
    then have "e = IndexError" by (auto simp: index_def split: if_splits)
    with Inl show ?thesis by simp
  next
    case (Inr name)
    with Cons.prems have "t \<in> set us" by (auto simp: index_MONTHS_out)
    with Cons have "derive_rows us = Inl IndexError" by simp
    with Inr show ?thesis by simp
  qed
qed

text \<open>
  C1 (as amended). \<open>MONTHS\<close> has seven entries, a dummy and January to June. For a
  month number from 1 to 6 the lookup \<open>MONTHS[int(m)]\<close> is in bounds and gives the name
  of that month, and \<open>load_data\<close> derives the month column of rows with such months.
  For a month number from 7 to 12 the lookup is out of range: it raises IndexError, and
  so does the loading of a file with such a row.
\<close>

theorem month_lookup:
  "(1 \<le> m \<and> m \<le> 6 \<longrightarrow>
      index MONTHS m = Inr (MONTHS ! nat m) \<and>
      MONTHS ! nat m \<in> set [''January'', ''February'', ''March'', ''April'', ''May'', ''June'']) \<and>
   (7 \<le> m \<and> m \<le> 12 \<longrightarrow> index MONTHS m = Inl IndexError) \<and>
   (list_all (\<lambda>t. 1 \<le> start_month t \<and> start_month t \<le> 6) ts \<longrightarrow>
      (\<exists>rs. derive_rows ts = Inr rs \<and>
            map Month rs = map (\<lambda>t. MONTHS ! nat (start_month t)) ts)) \<and>
   (t \<in> set ts \<and> 7 \<le> start_month t \<and> start_month t \<le> 12 \<longrightarrow>
      derive_rows ts = Inl IndexError)"
proof -
  have "MONTHS ! nat m \<in> set [''January'', ''February'', ''March'', ''April'', ''May'', ''June'']"
    if "1 \<le> m" "m \<le> 6"
  proof -
    from that have "m = 1 \<or> m = 2 \<or> m = 3 \<or> m = 4 \<or> m = 5 \<or> m = 6" by arith
    then show ?thesis by (auto simp: MONTHS_def)
  qed
  then show ?thesis
    using index_MONTHS_in [of m] index_MONTHS_out [of m] derive_rows_in [of ts]
      derive_rows_out [of t ts]
    by blast
qed

text \<open>
  The claim as stated, in bounds for all twelve months, fails for July: the lookup
  raises IndexError and the file is not loaded.
\<close>

theorem month_lookup_counterexample:
  "index MONTHS 7 = Inl IndexError \<and>
   load_data (\<lambda>file. [july_trip]) ''Chicago'' ''All'' ''All'' = Inl IndexError"
  by (simp add: index_def MONTHS_def load_data_def CITY_DATA_def july_trip_def)

text \<open>March and September, and a file with one row, in February and in July.\<close>

theorem month_lookup_witness:
  "index MONTHS 3 = Inr ''March'' \<and> index MONTHS 9 = Inl IndexError \<and>
   derive_rows [july_trip\<lparr>start_month := 2\<rparr>] \<noteq> Inl IndexError \<and>
   derive_rows [july_trip] = Inl IndexError"
  using month_lookup [of 3 "[july_trip\<lparr>start_month := 2\<rparr>]" july_trip]
    month_lookup [of 9 "[july_trip]" july_trip]
  by (auto simp: MONTHS_def july_trip_def)

section \<open>Unique selection\<close>

definition st_johns :: string where
  "st_johns = ''St. John'' @ [apostrophe] @ ''s''"

text \<open>
  C2 (the code differs). The only option that starts with \<open>st\<close> is \<open>St. John's\<close>, and
  \<open>unique_selection\<close> returns it inside double quotes: the return value is
  \<open>str(matched).strip("'[]")\<close>, and \<open>repr\<close> quotes a string that has an apostrophe with
  double quotes, which \<open>strip\<close> leaves in place.
\<close>

theorem unique_selection_quoted:
  "match_start_string [st_johns, ''Quit''] ''st'' = [st_johns] \<and>
   unique_selection [st_johns, ''Quit''] [Answered ''st''] =
     ([], Some ([double_quote] @ st_johns @ [double_quote], []))"
  by code_simp

text \<open>
  C8 (the code differs). The empty input matches the sole option \<open>[Test]\<close>, and
  \<open>unique_selection\<close> returns \<open>Test\<close>: \<open>strip("'[]")\<close> removes the brackets of the
  option with those of the list.
\<close>

theorem unique_selection_brackets:
  "match_start_string [''[Test]''] '''' = [''[Test]''] \<and>
   unique_selection [''[Test]''] [Answered ''''] = ([], Some (''Test'', []))"
  by code_simp

text \<open>
  What holds of an empty or blank input for every option list: it matches every
  option; with more than one option the answer is reported as ambiguous, with all the
  options, and the prompt is repeated; with one option the loop ends at once, and the
  value returned is the stripped \<open>str\<close> of the one-element list.
\<close>

lemma blank_matches_all:
  "rstrip (lstrip s) = [] \<Longrightarrow> match_start_string option_list s = option_list"
  by (simp add: match_start_string_def lower_def)

lemma blank_is_ambiguous:
  "rstrip (lstrip s) = [] \<Longrightarrow> 1 < length option_list \<Longrightarrow>
   unique_selection option_list (Answered s # rest) =
     emit [More_than_one s option_list] (unique_selection option_list rest)"
  by (auto simp: blank_matches_all Let_def)

lemma blank_selects_sole_entry:
  "rstrip (lstrip s) = [] \<Longrightarrow>
   unique_selection [entry] (Answered s # rest) =
     ([], Some (strip_chars (apostrophe # ''[]'') (str_list [entry]), rest))"
  by (simp add: blank_matches_all Let_def)

section \<open>Filters\<close>

text \<open>
  C7. Whenever \<open>get_filters\<close> returns: if the city is \<open>Quit\<close> then the month and the
  day are \<open>Quit\<close> too, and only the prompt for the city was answered (the rest of the
  script is what the city prompt left); and if the month is \<open>Quit\<close> then so is the day.
\<close>

theorem get_filters_quit:
  assumes "get_filters available_cities all_flag ins = (out, Some ((city, month, day), rest))"
  shows "(city = ''Quit'' \<longrightarrow>
            month = ''Quit'' \<and> day = ''Quit'' \<and>
            (\<exists>out1. unique_selection (available_cities @ [''Quit'']) ins =
                       (out1, Some (''Quit'', rest)) \<and>
                    out = out1 @ [You_selected ''Quit''])) \<and>
         (month = ''Quit'' \<longrightarrow> day = ''Quit'')"
  using assms unfolding get_filters_def
  by (auto simp: emit_def split: prod.splits option.splits if_splits)

text \<open>
  An interrupt at the city prompt, and a quit at the month prompt with an answer left
  over.
\<close>

theorem get_filters_quit_witness:
  "get_filters [''Chicago'', ''Washington''] False [Interrupt] =
     ([You_selected ''Quit''], Some ((''Quit'', ''Quit'', ''Quit''), [])) \<and>
   get_filters [''Chicago'', ''Washington''] False [Answered ''w'', Answered ''q'', Answered ''x''] =
     ([You_selected ''Washington'', You_selected ''Quit''],
      Some ((''Washington'', ''Quit'', ''Quit''), [Answered ''x'']))"
proof -
  have a: "get_filters [''Chicago'', ''Washington''] False [Interrupt] =
     ([You_selected ''Quit''], Some ((''Quit'', ''Quit'', ''Quit''), []))"
    by code_simp
  have b: "get_filters [''Chicago'', ''Washington''] False
      [Answered ''w'', Answered ''q'', Answered ''x''] =
     ([You_selected ''Washington'', You_selected ''Quit''],
      Some ((''Washington'', ''Quit'', ''Quit''), [Answered ''x'']))"
    by code_simp
  from get_filters_quit [OF a] get_filters_quit [OF b] a b show ?thesis by simp
qed

section \<open>Durations\<close>

lemma duration_fields:
  "days (display_duration description total_seconds) = py_round total_seconds div 60 div 60 div 24"
  "hours (display_duration description total_seconds) = py_round total_seconds div 60 div 60 mod 24"
  "minutes (display_duration description total_seconds) = py_round total_seconds div 60 mod 60"
  "seconds (display_duration description total_seconds) = py_round total_seconds mod 60"
  unfolding display_duration_def Let_def by (simp_all only: duration.select_convs)

lemma py_round_nonneg: "0 \<le> x \<Longrightarrow> 0 \<le> py_round x"
  by (auto simp: py_round_def Let_def)

text \<open>
  C4. For every \<open>total_seconds \<ge> 0\<close> the days, hours, minutes and seconds that
  \<open>display_duration\<close> computes add up, each in seconds, to the rounded input; the
  hours, minutes and seconds are within their ranges and the days are not negative.
\<close>

theorem duration_round_trip:
  assumes "0 \<le> total_seconds"
  shows "days (display_duration description total_seconds) * 86400 +
         hours (display_duration description total_seconds) * 3600 +
         minutes (display_duration description total_seconds) * 60 +
         seconds (display_duration description total_seconds) = py_round total_seconds \<and>
         0 \<le> days (display_duration description total_seconds) \<and>
         0 \<le> hours (display_duration description total_seconds) \<and>
         hours (display_duration description total_seconds) < 24 \<and>
         0 \<le> minutes (display_duration description total_seconds) \<and>
         minutes (display_duration description total_seconds) < 60 \<and>
         0 \<le> seconds (display_duration description total_seconds) \<and>
         seconds (display_duration description total_seconds) < 60"
proof -
  define n where "n = py_round total_seconds"
  have n: "0 \<le> n" using assms by (simp add: n_def py_round_nonneg)
  have "n div 60 div 60 div 24 * 86400 + n div 60 div 60 mod 24 * 3600 + n div 60 mod 60 * 60
      + n mod 60 = n"
    by presburger
  moreover have "0 \<le> n div 60 div 60 div 24" using n by simp
  ultimately show ?thesis unfolding duration_fields n_def [symmetric] by simp
qed

text \<open>90061.5 seconds round to 90062: one day, one hour, one minute and two seconds.\<close>

theorem duration_round_trip_witness:
  "py_round (180123 / 2) = 90062 \<and>
   days (display_duration ''Total:'' (180123 / 2)) = 1 \<and>
   hours (display_duration ''Total:'' (180123 / 2)) = 1 \<and>
   minutes (display_duration ''Total:'' (180123 / 2)) = 1 \<and>
   seconds (display_duration ''Total:'' (180123 / 2)) = 2"
proof -
  have r: "py_round (180123 / 2) = 90062" by code_simp
  have "(0::rat) \<le> 180123 / 2" by simp
  from duration_round_trip [OF this, of "''Total:''"] r show ?thesis
    by (simp add: duration_fields)
qed

lemma top_unit_index:
  "min_list (map (\<lambda>(index, value). if value > 0 then index else 3)
               (enumerate 0 [d, h, m, s :: int])) =
   (if 0 < d then 0 else if 0 < h then 1 else if 0 < m then 2 else (3::nat))"
  by simp

lemma print_string:
  "concat (map (\<lambda>(index, value). if value > 0 then str_int value @ args ! index else [])
             (enumerate 0 [d, h, m, s :: int])) =
   (if 0 < d then str_int d @ args ! 0 else []) @
   (if 0 < h then str_int h @ args ! 1 else []) @
   (if 0 < m then str_int m @ args ! 2 else []) @
   (if 0 < s then str_int s @ args ! 3 else [])"
  by (simp add: eval_nat_numeral)





section \<open>The most common values\<close>

lemma set_dropna: "set (dropna column) = {v. Some v \<in> set column}"
  by (induction column) (auto simp: dropna_def map_filter_simps split: option.splits)

lemma count_dropna: "count_list (dropna column) v = count_list column (Some v)"
  by (induction column) (auto simp: dropna_def map_filter_simps split: option.splits)

lemma foldr_max_upper: "x \<in> set xs \<Longrightarrow> (x::nat) \<le> foldr max xs 0"
  by (induction xs) (auto simp: max_def)

lemma foldr_max_attained: "foldr max xs (0::nat) \<in> set xs \<or> foldr max xs 0 = 0"
  by (induction xs) (auto simp: max_def)

lemma set_mode:
  "set (mode column) =
     {v. Some v \<in> set column \<and> (\<forall>w. count_list column (Some w) \<le> count_list column (Some v))}"
proof -
  define vals where "vals = dropna column"
  define top where "top = foldr max (map (count_list vals) vals) 0"
  have m: "set (mode column) = {v \<in> set vals. count_list vals v = top}"
    by (auto simp: mode_def Let_def vals_def top_def)
  have upper: "count_list vals w \<le> top" for w
  proof (cases "w \<in> set vals")
    case True
    then show ?thesis unfolding top_def by (intro foldr_max_upper) simp
  next
    case False
    then show ?thesis by (simp add: count_list_0_iff)
  qed
  have attained: "\<exists>u \<in> set vals. count_list vals u = top" if "v \<in> set vals" for v
  proof -
    from that have "count_list vals v \<noteq> 0" by (simp add: count_list_0_iff)
    with upper [of v] have "top \<noteq> 0" by simp
    with foldr_max_attained [of "map (count_list vals) vals"] show ?thesis unfolding top_def by auto
  qed
  have "v \<in> set vals \<and> count_list vals v = top \<longleftrightarrow>
        v \<in> set vals \<and> (\<forall>w. count_list vals w \<le> count_list vals v)" for v
  proof (cases "v \<in> set vals")
    case True
    from attained [OF True] obtain u where u: "count_list vals u = top" by blast
    show ?thesis
    proof
      assume "v \<in> set vals \<and> count_list vals v = top"
      with upper show "v \<in> set vals \<and> (\<forall>w. count_list vals w \<le> count_list vals v)"
        by simp
    next
      assume a: "v \<in> set vals \<and> (\<forall>w. count_list vals w \<le> count_list vals v)"
      then have "top \<le> count_list vals v" using u by metis
      with upper [of v] a show "v \<in> set vals \<and> count_list vals v = top" by simp
    qed
  next
    case False
    then show ?thesis by simp
  qed
  with m show ?thesis
    by (auto simp: vals_def set_dropna count_dropna)
qed

lemma count_column:
  "count_list (map (Some \<circ> f) df) (Some w) = length (filter (\<lambda>r. f r = w) df)"
  by (induction df) simp_all

lemma count_present: "count_list (map Some xs) (Some y) = count_list xs y"
  by (induction xs) simp_all

lemma count_bydf:
  "count_list (bydf df) y =
     length (filter (\<lambda>r. case Birth_Year r of None \<Rightarrow> False | Some b \<Rightarrow> py_int b = y) df)"
  by (induction df) (auto simp: bydf_def dropna_def map_filter_simps split: option.splits)

definition example_row ::
  "int \<Rightarrow> string \<Rightarrow> int \<Rightarrow> string \<Rightarrow> string \<Rightarrow> rat option \<Rightarrow> row" where
  "example_row m weekday h a b year =
     trip.extend
       \<lparr>start_month = m, start_weekday_name = weekday, start_hour = h,
          Start_Station = a, End_Station = b, Birth_Year = year\<rparr>
       (row.fields (MONTHS ! nat m) weekday h (a @ '' => '' @ b))"

definition example_rows :: "row list" where
  "example_rows =
     [example_row 1 ''Monday'' 8 ''Ash'' ''Elm'' (Some 1980),
      example_row 1 ''Tuesday'' 8 ''Ash'' ''Oak'' (Some 1990),
      example_row 2 ''Monday'' 9 ''Elm'' ''Oak'' None,
      example_row 2 ''Tuesday'' 9 ''Elm'' ''Oak'' (Some (3981 / 2)),
      example_row 3 ''Sunday'' 9 ''Oak'' ''Ash'' (Some 1980)]"

text \<open>
  C6. The values reported as most common are, for every column, exactly the values of
  the column (missing values apart) that no other value outnumbers: every value tied at
  the highest frequency is among them, once each, in ascending order, and the printed
  text joins all of them. This is what \<open>time_stats\<close> prints for the month (without a
  month filter), the day of week (without a day filter) and the hour, what
  \<open>station_stats\<close> prints for the start station, the end station and the path, and what
  \<open>user_stats\<close> prints for the birth years that are present, converted to int. The
  frequency of a value in a column is the number of rows that have it.
\<close>

theorem most_common_all_ties:
  "(v \<in> set (mode column) \<longleftrightarrow>
      Some v \<in> set column \<and>
      (\<forall>w. count_list column (Some w) \<le> count_list column (Some v))) \<and>
   distinct (mode column) \<and> sorted (mode column) \<and>
   display_most_common description column str False =
     [description @ join '', '' (map str (mode column))] \<and>
   display_most_common description column str True =
     [description, [CHR 0x09] @ join [CHR 0x0A, CHR 0x09] (map str (mode column)), [CHR 0x0A]] \<and>
   time_stats df month day =
     (if month = ''All''
      then [''The most common month(s):'' @ join '', '' (mode (map (Some \<circ> Month) df))]
      else []) @
     (if day = ''All''
      then [''The most common day(s):  '' @ join '', '' (mode (map (Some \<circ> Day_of_Week) df))]
      else []) @
     [''The most common hour(s): '' @
        join '', '' (map str_int (mode (map (Some \<circ> Hour) df)))] \<and>
   station_stats df =
     [''The most common start stations(s):'',
      [CHR 0x09] @ join [CHR 0x0A, CHR 0x09] (mode (map (Some \<circ> Start_Station) df)),
      [CHR 0x0A],
      ''The most common end stations(s):'',
      [CHR 0x09] @ join [CHR 0x0A, CHR 0x09] (mode (map (Some \<circ> End_Station) df)),
      [CHR 0x0A],
      ''The most common start => end combination(s):'',
      [CHR 0x09] @ join [CHR 0x0A, CHR 0x09] (mode (map (Some \<circ> Path) df)),
      [CHR 0x0A]] \<and>
   user_stats_birth_year True df =
     (if bydf df = [] then Inl KeyError
      else Inr [''Earliest year of birth:  '' @ str_int (Min (set (bydf df))),
                ''Latest year of birth:    '' @ str_int (Max (set (bydf df))),
                ''The most common year(s): '' @
                  join '', '' (map str_int (mode (map Some (bydf df))))]) \<and>
   count_list (map (Some \<circ> f) df) (Some u) = length (filter (\<lambda>r. f r = u) df) \<and>
   count_list (map Some (bydf df)) (Some y) =
     length (filter (\<lambda>r. case Birth_Year r of None \<Rightarrow> False | Some b \<Rightarrow> py_int b = y) df)"
proof -
  have "distinct (mode column)" "sorted (mode column)"
    by (simp_all add: mode_def Let_def)
  moreover have "count_list (map Some (bydf df)) (Some y) = count_list (bydf df) y"
    by (rule count_present)
  ultimately show ?thesis
    by (simp add: set_mode display_most_common_def time_stats_def station_stats_def
          user_stats_birth_year_def count_column count_bydf Let_def)
qed

text \<open>
  A column where 8 and 17 occur twice, 9 once, and three values are missing. Five rows
  where January and February, Monday and Tuesday, and the years 1980 and 1990 are tied,
  and a file whose only birth year is missing.
\<close>

theorem most_common_all_ties_witness:
  "mode [Some (17::int), None, Some 8, Some 17, Some 8, Some 9, None, None] = [8, 17] \<and>
   8 \<in> set (mode [Some (17::int), None, Some 8, Some 17, Some 8, Some 9, None, None]) \<and>
   9 \<notin> set (mode [Some (17::int), None, Some 8, Some 17, Some 8, Some 9, None, None]) \<and>
   time_stats example_rows ''All'' ''All'' =
     [''The most common month(s):February, January'',
      ''The most common day(s):  Monday, Tuesday'',
      ''The most common hour(s): 9''] \<and>
   time_stats example_rows ''January'' ''All'' =
     [''The most common day(s):  Monday, Tuesday'', ''The most common hour(s): 9''] \<and>
   station_stats example_rows =
     [''The most common start stations(s):'', [CHR 0x09] @ ''Ash'' @ [CHR 0x0A, CHR 0x09] @ ''Elm'',
      [CHR 0x0A],
      ''The most common end stations(s):'', [CHR 0x09] @ ''Oak'', [CHR 0x0A],
      ''The most common start => end combination(s):'', [CHR 0x09] @ ''Elm => Oak'',
      [CHR 0x0A]] \<and>
   user_stats_birth_year True example_rows =
     Inr [''Earliest year of birth:  1980'', ''Latest year of birth:    1990'',
          ''The most common year(s): 1980, 1990''] \<and>
   user_stats_birth_year True [example_row 2 ''Monday'' 9 ''Elm'' ''Oak'' None] = Inl KeyError"
proof -
  have "mode [Some (17::int), None, Some 8, Some 17, Some 8, Some 9, None, None] = [8, 17]"
    by code_simp
  moreover have "time_stats example_rows ''All'' ''All'' =
     [''The most common month(s):February, January'',
      ''The most common day(s):  Monday, Tuesday'',
      ''The most common hour(s): 9'']"
    by code_simp
  moreover have "time_stats example_rows ''January'' ''All'' =
     [''The most common day(s):  Monday, Tuesday'', ''The most common hour(s): 9'']"
    by code_simp
  moreover have "station_stats example_rows =
     [''The most common start stations(s):'', [CHR 0x09] @ ''Ash'' @ [CHR 0x0A, CHR 0x09] @ ''Elm'',
      [CHR 0x0A],
      ''The most common end stations(s):'', [CHR 0x09] @ ''Oak'', [CHR 0x0A],
      ''The most common start => end combination(s):'', [CHR 0x09] @ ''Elm => Oak'',
      [CHR 0x0A]]"
    by code_simp
  moreover have "user_stats_birth_year True example_rows =
     Inr [''Earliest year of birth:  1980'', ''Latest year of birth:    1990'',
          ''The most common year(s): 1980, 1990'']"
    by code_simp
  moreover have
    "user_stats_birth_year True [example_row 2 ''Monday'' 9 ''Elm'' ''Oak'' None] = Inl KeyError"
    by code_simp
  ultimately show ?thesis
    using most_common_all_ties [of 8 "[Some (17::int), None, Some 8, Some 17, Some 8, Some 9, None, None]"]
      most_common_all_ties [of 9 "[Some (17::int), None, Some 8, Some 17, Some 8, Some 9, None, None]"]
    by simp
qed

section \<open>Paging through the raw data\<close>

definition january_trip :: trip where
  "january_trip = \<lparr>start_month = 1, start_weekday_name = ''Monday'', start_hour = 8,
     Start_Station = ''A'', End_Station = ''B'', Birth_Year = Some 1980\<rparr>"

definition all_data :: args where
  "all_data = \<lparr>timeoff = False, all = True, debug = False, pagesize = 10\<rparr>"

definition january_row :: row where
  "january_row = trip.extend january_trip (row.fields ''January'' ''Monday'' 8 ''A => B'')"

definition keeps_paging :: "user_input \<Rightarrow> bool" where
  "keeps_paging x = (lower (clean_input x) \<noteq> ''q'')"

lemma interrupt_keeps_paging: "keeps_paging Interrupt"
  unfolding keeps_paging_def by code_simp

lemma q_stops_paging: "\<not> keeps_paging (Answered ''q'') \<and> \<not> keeps_paging (Answered ''Q'')"
  unfolding keeps_paging_def by code_simp

text \<open>
  C9 (the code differs). With two rows and a page size of one, an interrupt at the
  first page boundary does not stop the view: \<open>clean_input\<close> turns it into \<open>Quit\<close>,
  which is not \<open>q\<close>, and the second page is printed.
\<close>

theorem interrupt_does_not_stop_raw_view:
  "raw_data 1 [r1, r2] 0 [Interrupt, Answered ''q''] = ([Page 0 [r1], Page 1 [r2]], Some [])"
  using interrupt_keeps_paging q_stops_paging
  by (simp add: keeps_paging_def slice_def)

text \<open>An answer of \<open>q\<close> or \<open>Q\<close> at a page boundary does end the view.\<close>

lemma raw_data_q:
  "i < length df \<Longrightarrow> \<not> keeps_paging x \<Longrightarrow>
   raw_data page df i (x # rest) = ([Page i (slice df i (i + nat \<bar>page\<bar>))], Some rest)"
  by (simp add: keeps_paging_def)

text \<open>
  C10. With a page size of 0 and a row left to show, the index never moves: every
  page is the empty slice at the same row \<open>i\<close>, one page is printed for each answer
  up to the first \<open>q\<close>, and the loop returns exactly when some answer is \<open>q\<close>. While
  every answer is something else the loop is still running, however long the script.
\<close>

theorem page_size_zero:
  assumes "i < length df"
  shows "raw_data 0 df i ins =
           (replicate (Suc (length (takeWhile keeps_paging ins))) (Page i []),
            case dropWhile keeps_paging ins of [] \<Rightarrow> None | q # rest \<Rightarrow> Some rest) \<and>
         (snd (raw_data 0 df i ins) = None \<longleftrightarrow> list_all keeps_paging ins)"
proof -
  have eq: "raw_data 0 df i ins =
           (replicate (Suc (length (takeWhile keeps_paging ins))) (Page i []),
            case dropWhile keeps_paging ins of [] \<Rightarrow> None | q # rest \<Rightarrow> Some rest)"
    using assms
    by (induction ins) (simp_all add: keeps_paging_def slice_def)
  have "(case dropWhile keeps_paging ins of [] \<Rightarrow> None | q # rest \<Rightarrow> Some rest) = None
        \<longleftrightarrow> list_all keeps_paging ins"
    by (induction ins) simp_all
  with eq show ?thesis by simp
qed

text \<open>Three answers without a \<open>q\<close>, and a \<open>q\<close> as the second answer.\<close>

theorem page_size_zero_witness:
  "raw_data 0 [january_row] 0 [Answered ''n'', Interrupt, Answered ''x''] =
     (replicate 4 (Page 0 []), None) \<and>
   raw_data 0 [january_row] 0 [Answered ''n'', Answered ''q'', Answered ''x''] =
     ([Page 0 [], Page 0 []], Some [Answered ''x''])"
proof -
  have k: "keeps_paging (Answered ''n'')" "keeps_paging Interrupt" "keeps_paging (Answered ''x'')"
    "\<not> keeps_paging (Answered ''q'')"
    unfolding keeps_paging_def by code_simp+
  have "(0::nat) < length [january_row]" by simp
  from page_size_zero [OF this, of "[Answered ''n'', Interrupt, Answered ''x'']"]
    page_size_zero [OF this, of "[Answered ''n'', Answered ''q'', Answered ''x'']"] k
  show ?thesis by (simp add: eval_nat_numeral)
qed

text \<open>
  With any other page size the loop returns once the answers, whatever they are, have
  paged through the rows.
\<close>

lemma raw_data_returns:
  "page \<noteq> 0 \<Longrightarrow> length df \<le> i + length ins * nat \<bar>page\<bar> \<Longrightarrow>
   snd (raw_data page df i ins) \<noteq> None"
proof (induction ins arbitrary: i)
  case Nil
  then show ?case by simp
next
  case (Cons x rest)
  from Cons.prems have "length df \<le> (i + nat \<bar>page\<bar>) + length rest * nat \<bar>page\<bar>"
    by simp
  with Cons.IH [of "i + nat \<bar>page\<bar>"] Cons.prems(1) show ?case
    by (auto split: prod.splits)
qed

section \<open>Reloading\<close>

text \<open>
  The claim about reloading, as a check of a session's events. \<open>loaded\<close> is the city
  of the latest \<open>Load_data\<close>. After \<open>get_filters\<close> has returned a city, a month and a day,
  none of them \<open>Quit\<close>: when the city is the one loaded last and the all flag is set, no
  \<open>Load_data\<close> follows; in every other case \<open>Load_data\<close> for these three values
  follows at once. No other \<open>Load_data\<close> occurs.
\<close>

fun neutral :: "event \<Rightarrow> bool" where
  "neutral (Filters c m d) = False"
| "neutral (Load_data c m d) = False"
| "neutral e = True"

fun reloads_as_claimed :: "bool \<Rightarrow> string option \<Rightarrow> event list \<Rightarrow> bool" where
  "reloads_as_claimed a loaded [] = True"
| "reloads_as_claimed a loaded (Filters c m d # Load_data c' m' d' # tr) =
     (''Quit'' \<notin> set [c, m, d] \<and> \<not> (loaded = Some c \<and> a) \<and>
      c' = c \<and> m' = m \<and> d' = d \<and> reloads_as_claimed a (Some c) tr)"
| "reloads_as_claimed a loaded (Filters c m d # tr) =
     ((''Quit'' \<in> set [c, m, d] \<or> (loaded = Some c \<and> a)) \<and> reloads_as_claimed a loaded tr)"
| "reloads_as_claimed a loaded (Load_data c m d # tr) = False"
| "reloads_as_claimed a loaded (e # tr) = reloads_as_claimed a loaded tr"

definition no_load_head :: "event list \<Rightarrow> bool" where
  "no_load_head tr = (case tr of Load_data c m d # rest \<Rightarrow> False | _ \<Rightarrow> True)"

lemma reloads_no_load_head: "reloads_as_claimed a loaded tr \<Longrightarrow> no_load_head tr"
proof (cases tr)
  case Nil
  then show ?thesis by (simp add: no_load_head_def)
next
  case (Cons e rest)
  assume "reloads_as_claimed a loaded tr"
  with Cons show ?thesis by (cases e) (simp_all add: no_load_head_def)
qed

lemma reloads_neutral:
  "neutral e \<Longrightarrow> reloads_as_claimed a loaded (e # tr) = reloads_as_claimed a loaded tr"
  by (cases e) simp_all

lemma reloads_neutral_append:
  "list_all neutral out \<Longrightarrow>
   reloads_as_claimed a loaded (out @ tr) = reloads_as_claimed a loaded tr"
  by (induction out) (simp_all add: reloads_neutral)

lemma reloads_skip:
  assumes "no_load_head tr"
  shows "reloads_as_claimed a loaded (Filters c m d # tr) =
     ((''Quit'' \<in> set [c, m, d] \<or> (loaded = Some c \<and> a)) \<and> reloads_as_claimed a loaded tr)"
proof (cases tr)
  case Nil
  then show ?thesis by simp
next
  case (Cons e rest)
  with assms show ?thesis by (cases e) (simp_all add: no_load_head_def)
qed

lemma unique_selection_neutral:
  "unique_selection option_list ins = (out, r) \<Longrightarrow> list_all neutral out"
proof (induction ins arbitrary: out r)
  case Nil
  then show ?case by simp
next
  case (Cons x rest)
  obtain out' r' where rec: "unique_selection option_list rest = (out', r')"
    by (cases "unique_selection option_list rest")
  with Cons.IH have "list_all neutral out'" by simp
  with Cons.prems rec show ?case
    by (auto simp: Let_def emit_def split: if_splits)
qed

lemma get_filters_neutral:
  "get_filters cities a ins = (out, r) \<Longrightarrow> list_all neutral out"
  unfolding get_filters_def
  by (auto simp: emit_def split: prod.splits option.splits if_splits
        dest: unique_selection_neutral)

lemma raw_data_neutral:
  "raw_data page df i ins = (out, r) \<Longrightarrow> list_all neutral out"
proof (induction ins arbitrary: i out r)
  case Nil
  then show ?case by (auto split: if_splits)
next
  case (Cons x rest)
  obtain out' r' where rec: "raw_data page df (i + nat \<bar>page\<bar>) rest = (out', r')"
    by (cases "raw_data page df (i + nat \<bar>page\<bar>) rest")
  with Cons.IH have "list_all neutral out'" by simp
  with Cons.prems rec show ?case
    by (auto split: if_splits)
qed

lemma display_data_neutral:
  "display_data stats_error args df ins = (out, r) \<Longrightarrow> list_all neutral out"
  unfolding display_data_def
  by (auto simp: Let_def split: prod.splits option.splits if_splits
        dest: unique_selection_neutral raw_data_neutral)


lemma session_loop_reloads:
  "reloads_as_claimed (all args) previous_city
     (fst (session_loop csv stats_error args cities previous_city df ins))"
proof (induction csv stats_error args cities previous_city df ins rule: session_loop.induct)
  case (1 csv stats_error args cities previous_city df ins)
  obtain out y where g: "get_filters cities (all args) ins = (out, y)"
    by (cases "get_filters cities (all args) ins")
  then have nout: "list_all neutral out" by (rule get_filters_neutral)
  show ?case
  proof (cases y)
    case None
    with g nout show ?thesis
      using reloads_neutral_append [of out "all args" previous_city "[]"]
      by (simp add: session_loop.simps)
  next
    case (Some v)
    obtain city month day ins1 where v: "v = ((city, month, day), ins1)"
      by (cases v) auto
    show ?thesis
    proof (cases "''Quit'' \<in> set [city, month, day]")
      case True
      with g Some v nout show ?thesis
        by (simp add: session_loop.simps [of csv stats_error args cities previous_city df ins]
              reloads_neutral_append)
    next
      case False
      define skip where "skip = (previous_city = Some city \<and> all args)"
      define out1 where "out1 = (if \<not> skip then [Load_data city month day] else [])"
      define loaded where
        "loaded = (if \<not> skip then load_data csv city month day else Inr df)"
      show ?thesis
      proof (cases loaded)
        case (Inl e)
        with g Some v nout False show ?thesis
          by (auto simp: session_loop.simps [of csv stats_error args cities previous_city df ins]
                reloads_neutral_append loaded_def skip_def split: if_splits)
      next
        case (Inr df1)
        obtain out2 fl where d: "display_data stats_error args df1 ins1 = (out2, fl)"
          by (cases "display_data stats_error args df1 ins1")
        then have nout2: "list_all neutral out2" by (rule display_data_neutral)
        have tail: "reloads_as_claimed (all args) (Some city) (out2 @ tr) =
                    reloads_as_claimed (all args) (Some city) tr" for tr
          using nout2 by (rule reloads_neutral_append)
        have step: "reloads_as_claimed (all args) previous_city
                      (out @ [Filters city month day] @ out1 @ out2 @ tr)"
          if "reloads_as_claimed (all args) (Some city) tr" for tr
        proof (cases skip)
          case True
          with that tail [of tr] have "reloads_as_claimed (all args) previous_city (out2 @ tr)"
            by (simp add: skip_def)
          then show ?thesis
            using True nout reloads_no_load_head [of "all args" previous_city "out2 @ tr"]
            by (simp add: reloads_neutral_append reloads_skip out1_def skip_def)
        next
          case False
          with that tail [of tr] \<open>''Quit'' \<notin> set [city, month, day]\<close> nout show ?thesis
            by (simp add: reloads_neutral_append out1_def skip_def)
        qed
        have sl: "session_loop csv stats_error args cities previous_city df ins =
          (case fl of
             Blocked \<Rightarrow> (out @ [Filters city month day] @ out1 @ out2, Waiting)
           | Break \<Rightarrow> (out @ [Filters city month day] @ out1 @ out2, Finished)
           | Raise e \<Rightarrow> (out @ [Filters city month day] @ out1 @ out2, Raised e)
           | Continue [] \<Rightarrow> (out @ [Filters city month day] @ out1 @ out2, Waiting)
           | Continue (restart # ins2) \<Rightarrow>
               if lower (clean_input restart) \<noteq> ''y''
               then (out @ [Filters city month day] @ out1 @ out2, Finished)
               else (case session_loop csv stats_error args cities (Some city) df1 ins2 of
                       (out3, r) \<Rightarrow> (out @ [Filters city month day] @ out1 @ out2 @ out3, r)))"
          using g Some v False Inr d
          by (subst session_loop.simps)
             (auto simp: loaded_def out1_def skip_def split: if_splits flow.splits list.splits)
        show ?thesis
        proof (cases fl)
          case (Continue ins')
          show ?thesis
          proof (cases ins')
            case Nil
            with sl Continue step [of "[]"] show ?thesis by simp
          next
            case (Cons restart ins2)
            show ?thesis
            proof (cases "lower (clean_input restart) \<noteq> ''y''")
              case True
              with sl Continue Cons step [of "[]"] show ?thesis by simp
            next
              case y: False
              have "reloads_as_claimed (all args) (Some city)
                      (fst (session_loop csv stats_error args cities (Some city) df1 ins2))"
                using "1.IH" [OF g [symmetric] Some v [symmetric] refl refl False _ refl d [symmetric]
                                Continue Cons y]
                      Inr
                by (simp add: loaded_def skip_def split: if_splits)
              from step [OF this] sl Continue Cons y show ?thesis
                by (simp split: prod.splits)
            qed
          qed
        next
          case Break
          with sl step [of "[]"] show ?thesis by simp
        next
          case (Raise e)
          with sl step [of "[]"] show ?thesis by simp
        next
          case Blocked
          with sl step [of "[]"] show ?thesis by simp
        qed
      qed
    qed
  qed
qed


lemma reloads_snoc:
  "reloads_as_claimed a loaded tr \<Longrightarrow> neutral e \<Longrightarrow> reloads_as_claimed a loaded (tr @ [e])"
  by (induction a loaded tr rule: reloads_as_claimed.induct)
     (auto simp: reloads_neutral; cases e; simp)+

text \<open>
  C3. In every session, finished or not, the data is loaded exactly as the claim
  says: \<open>load_data\<close> is skipped when the selected city is the city loaded last and the
  all flag is set, and called in every other round.
\<close>

theorem reload_policy:
  "reloads_as_claimed (all args) None (fst (main_loop csv stats_error file_list args ins))"
proof -
  define cities where
    "cities = map fst (filter (\<lambda>(city_name, city_file). city_file \<in> set file_list) CITY_DATA)"
  obtain out r where s: "session_loop csv stats_error args cities None [] ins = (out, r)"
    by (cases "session_loop csv stats_error args cities None [] ins")
  with session_loop_reloads [of args None csv stats_error cities "[]" ins]
  have "reloads_as_claimed (all args) None out" by simp
  then have "reloads_as_claimed (all args) None (out @ [Signoff])"
    by (rule reloads_snoc) simp
  with \<open>reloads_as_claimed (all args) None out\<close> s show ?thesis
    by (auto simp: main_loop_def Let_def cities_def split: outcome.splits)
qed

text \<open>
  Chicago, Chicago again and then Washington, without filters: the second round loads
  nothing, the third loads Washington.
\<close>

theorem reload_policy_witness:
  "filter (\<lambda>e. \<not> neutral e)
     (fst (main_loop (\<lambda>file. [january_trip]) (\<lambda>df. None) [''chicago.csv'', ''washington.csv'']
             all_data
             [Answered ''c'', Answered ''s'', Answered ''y'',
              Answered ''c'', Answered ''s'', Answered ''y'',
              Answered ''w'', Answered ''s'', Answered ''n''])) =
     [Filters ''Chicago'' ''All'' ''All'', Load_data ''Chicago'' ''All'' ''All'',
      Filters ''Chicago'' ''All'' ''All'',
      Filters ''Washington'' ''All'' ''All'', Load_data ''Washington'' ''All'' ''All''] \<and>
   reloads_as_claimed True None
     (fst (main_loop (\<lambda>file. [january_trip]) (\<lambda>df. None) [''chicago.csv'', ''washington.csv'']
             all_data
             [Answered ''c'', Answered ''s'', Answered ''y'',
              Answered ''c'', Answered ''s'', Answered ''y'',
              Answered ''w'', Answered ''s'', Answered ''n'']))"
proof -
  have "filter (\<lambda>e. \<not> neutral e)
     (fst (main_loop (\<lambda>file. [january_trip]) (\<lambda>df. None) [''chicago.csv'', ''washington.csv'']
             all_data
             [Answered ''c'', Answered ''s'', Answered ''y'',
              Answered ''c'', Answered ''s'', Answered ''y'',
              Answered ''w'', Answered ''s'', Answered ''n''])) =
     [Filters ''Chicago'' ''All'' ''All'', Load_data ''Chicago'' ''All'' ''All'',
      Filters ''Chicago'' ''All'' ''All'',
      Filters ''Washington'' ''All'' ''All'', Load_data ''Washington'' ''All'' ''All'']"
    by code_simp
  moreover have "all all_data = True" by (simp add: all_data_def)
  ultimately show ?thesis
    using reload_policy [of all_data "\<lambda>file. [january_trip]" "\<lambda>df. None"
        "[''chicago.csv'', ''washington.csv'']"
        "[Answered ''c'', Answered ''s'', Answered ''y'',
          Answered ''c'', Answered ''s'', Answered ''y'',
          Answered ''w'', Answered ''s'', Answered ''n'']"]
    by simp
qed

end
